theory Spec2Isabelle
  imports Complex_Main "HOL-Library.Word"
begin

unbundle bit_operations_syntax

section \<open>update\_cities.py: fetch, parse, project, serialise\<close>

text \<open>
  The script is a straight line of library calls around one loop:
  \<^verbatim>\<open>
  res = requests.get(URL)
  res.raise_for_status()
  reader = csv.reader(res.content.decode('utf-8').splitlines())
  next(reader) # Ignore the header
  cities = []
  for row in reader:
      city, _, lat, long, _, _, _, _, _ = row
      cities.append({'city': city, 'lat': float(lat), 'long': float(long)})
  with OUT_FILE.open('wb') as out_file:
      plistlib.dump(cities, out_file, fmt=plistlib.FMT_BINARY)
  \<close>
  Every exception is uncaught and ends the run, so each call returns \<open>error + 'a\<close> and the
  first \<open>Inl\<close> is the outcome of the whole script. The library calls whose behaviour the
  control flow depends on (\<open>raise_for_status\<close>, \<open>bytes.decode\<close>, \<open>str.splitlines\<close>,
  \<open>csv.reader\<close>, tuple unpacking) are written out as CPython and requests implement them.
  The two whose results are IEEE doubles or a binary encoding of them (\<open>float\<close>,
  \<open>plistlib.dump\<close>) are parameters of the model: \<open>float\<close> returns \<open>None\<close> where Python
  raises \<open>ValueError\<close>, and \<open>dump\<close> is the byte string \<open>plistlib.dump\<close> writes for a list
  of records.
\<close>

subsection \<open>Data\<close>

type_synonym byte = "8 word"
type_synonym bytes = "byte list"

text \<open>A Python \<open>str\<close> is a sequence of Unicode code points.\<close>

type_synonym str = "nat list"

datatype unpack_failure = not_enough_values | too_many_values

datatype error =
    RequestException
  | HTTPError
  | UnicodeDecodeError
  | StopIteration
  | csv_Error
  | ValueError_unpack unpack_failure
  | ValueError_float str
  | OSError

text \<open>Both \<open>ValueError_unpack\<close> and \<open>ValueError_float\<close> are Python's \<open>ValueError\<close>; the
  argument records which statement of the loop body raised it.\<close>

fun is_ValueError :: "error \<Rightarrow> bool" where
  "is_ValueError (ValueError_unpack _) = True"
| "is_ValueError (ValueError_float _) = True"
| "is_ValueError _ = False"

record Response =
  status_code :: int
  content :: bytes

text \<open>The dictionary literal of the loop body has the three fixed keys
  \<open>'city'\<close>, \<open>'lat'\<close>, \<open>'long'\<close>; \<open>'f\<close> is the type of Python floats.\<close>

record 'f CityRecord =
  city :: str
  lat :: 'f
  long :: 'f

subsection \<open>requests: \<open>Response.raise_for_status\<close>\<close>

text \<open>requests raises \<open>HTTPError\<close> for a client error (400 to 499) and for a server error
  (500 to 599), and returns for every other status code.\<close>

definition raise_for_status :: "Response \<Rightarrow> error + unit" where
  "raise_for_status res =
     (if 400 \<le> status_code res \<and> status_code res < 500 then Inl HTTPError
      else if 500 \<le> status_code res \<and> status_code res < 600 then Inl HTTPError
      else Inr ())"

subsection \<open>\<open>bytes.decode('utf-8')\<close>\<close>

definition continuation :: "byte \<Rightarrow> bool" where
  "continuation b = (0x80 \<le> b \<and> b \<le> 0xBF)"

text \<open>Strict decoding: a truncated or overlong sequence, a surrogate (U+D800 to U+DFFF) and
  a code point above U+10FFFF raise \<open>UnicodeDecodeError\<close>. \<open>sequence_length b bs\<close> is the
  number of bytes of the well-formed sequence that starts with \<open>b\<close> and goes on in \<open>bs\<close>.\<close>

definition sequence_length :: "byte \<Rightarrow> bytes \<Rightarrow> nat option" where
  "sequence_length b bs =
     (if b < 0x80 then Some 1
      else if 0xC2 \<le> b \<and> b \<le> 0xDF then
        (if 1 \<le> length bs \<and> continuation (bs ! 0) then Some 2 else None)
      else if 0xE0 \<le> b \<and> b \<le> 0xEF then
        (if 2 \<le> length bs \<and> continuation (bs ! 0) \<and> continuation (bs ! 1)
            \<and> \<not> (b = 0xE0 \<and> bs ! 0 < 0xA0) \<and> \<not> (b = 0xED \<and> 0x9F < bs ! 0)
         then Some 3 else None)
      else if 0xF0 \<le> b \<and> b \<le> 0xF4 then
        (if 3 \<le> length bs \<and> continuation (bs ! 0) \<and> continuation (bs ! 1)
            \<and> continuation (bs ! 2)
            \<and> \<not> (b = 0xF0 \<and> bs ! 0 < 0x90) \<and> \<not> (b = 0xF4 \<and> 0x8F < bs ! 0)
         then Some 4 else None)
      else None)"

text \<open>The code point of a well-formed sequence.\<close>

fun code_point :: "bytes \<Rightarrow> nat" where
  "code_point [b] = unat b"
| "code_point [b, b1] = unat (b AND 0x1F) * 64 + unat (b1 AND 0x3F)"
| "code_point [b, b1, b2] =
     unat (b AND 0x0F) * 4096 + unat (b1 AND 0x3F) * 64 + unat (b2 AND 0x3F)"
| "code_point [b, b1, b2, b3] =
     unat (b AND 0x07) * 262144 + unat (b1 AND 0x3F) * 4096 + unat (b2 AND 0x3F) * 64
       + unat (b3 AND 0x3F)"
| "code_point _ = 0"

fun decode_utf_8 :: "bytes \<Rightarrow> error + str" where
  "decode_utf_8 [] = Inr []"
| "decode_utf_8 (b # bs) =
     (case sequence_length b bs of
        None \<Rightarrow> Inl UnicodeDecodeError
      | Some n \<Rightarrow>
          (case decode_utf_8 (drop (n - 1) bs) of Inl e \<Rightarrow> Inl e
           | Inr s \<Rightarrow> Inr (code_point (b # take (n - 1) bs) # s)))"

subsection \<open>\<open>str.splitlines()\<close>\<close>

text \<open>The line boundaries of \<open>str.splitlines\<close>: LF, VT, FF, CR, FS, GS, RS, NEL, LS, PS.\<close>

definition is_linebreak :: "nat \<Rightarrow> bool" where
  "is_linebreak c =
     (c = 0x0A \<or> c = 0x0B \<or> c = 0x0C \<or> c = 0x0D \<or> c = 0x1C \<or> c = 0x1D \<or> c = 0x1E
      \<or> c = 0x85 \<or> c = 0x2028 \<or> c = 0x2029)"

text \<open>\<open>split_from line s\<close> scans \<open>s\<close> with \<open>line\<close> the characters read since the last
  boundary. A boundary closes the line (CR LF is one boundary); the end of the text closes
  it only when it is not empty, so a final line break adds no empty line.\<close>

fun split_from :: "str \<Rightarrow> str \<Rightarrow> str list" where
  "split_from line [] = (if line = [] then [] else [line])"
| "split_from line [c] = (if is_linebreak c then [line] else [line @ [c]])"
| "split_from line (c # d # s) =
     (if is_linebreak c then
        (if c = 0x0D \<and> d = 0x0A then line # split_from [] s
         else line # split_from [] (d # s))
      else split_from (line @ [c]) (d # s))"

definition splitlines :: "str \<Rightarrow> str list" where
  "splitlines s = split_from [] s"

subsection \<open>\<open>csv.reader\<close> with the default dialect\<close>

text \<open>The reader of CPython's \<open>_csv\<close> module, for the \<open>excel\<close> dialect the script uses:
  delimiter \<open>,\<close>, quote character \<open>"\<close>, \<open>doublequote\<close>, no escape character, no
  \<open>skipinitialspace\<close>, not \<open>strict\<close>. Its state machine reads one character at a time;
  \<open>None\<close> is the end-of-line mark the reader feeds after each line.\<close>

datatype ParserState =
    START_RECORD | START_FIELD | IN_FIELD | IN_QUOTED_FIELD | QUOTE_IN_QUOTED_FIELD | EAT_CRNL

record ReaderObj =
  fields' :: "str list"
  field :: str
  state :: ParserState

definition field_limit :: nat where
  "field_limit = 128 * 1024"

definition delimiter :: nat where
  "delimiter = 0x2C"

definition quotechar :: nat where
  "quotechar = 0x22"

definition parse_reset :: ReaderObj where
  "parse_reset = \<lparr>fields' = [], field = [], state = START_RECORD\<rparr>"

definition parse_save_field :: "ReaderObj \<Rightarrow> ReaderObj" where
  "parse_save_field self = self\<lparr>fields' := fields' self @ [field self], field := []\<rparr>"

definition parse_add_char :: "ReaderObj \<Rightarrow> nat \<Rightarrow> error + ReaderObj" where
  "parse_add_char self c =
     (if length (field self) \<ge> field_limit then Inl csv_Error
      else Inr (self\<lparr>field := field self @ [c]\<rparr>))"

definition is_newline :: "nat option \<Rightarrow> bool" where
  "is_newline c = (c = Some 0x0A \<or> c = Some 0x0D)"

definition after_line :: "nat option \<Rightarrow> ParserState" where
  "after_line c = (if c = None then START_RECORD else EAT_CRNL)"

text \<open>\<open>START_RECORD\<close> falls through to \<open>START_FIELD\<close> on a character that starts a field.\<close>

definition start_field :: "ReaderObj \<Rightarrow> nat option \<Rightarrow> error + ReaderObj" where
  "start_field self c =
     (if is_newline c \<or> c = None then Inr ((parse_save_field self)\<lparr>state := after_line c\<rparr>)
      else if c = Some quotechar then Inr (self\<lparr>state := IN_QUOTED_FIELD\<rparr>)
      else if c = Some delimiter then Inr (parse_save_field self)
      else (case parse_add_char self (the c) of Inl e \<Rightarrow> Inl e
            | Inr self' \<Rightarrow> Inr (self'\<lparr>state := IN_FIELD\<rparr>)))"

definition parse_process_char :: "ReaderObj \<Rightarrow> nat option \<Rightarrow> error + ReaderObj" where
  "parse_process_char self c =
     (case state self of
        START_RECORD \<Rightarrow>
          if c = None then Inr self
          else if is_newline c then Inr (self\<lparr>state := EAT_CRNL\<rparr>)
          else start_field (self\<lparr>state := START_FIELD\<rparr>) c
      | START_FIELD \<Rightarrow> start_field self c
      | IN_FIELD \<Rightarrow>
          if is_newline c \<or> c = None then
            Inr ((parse_save_field self)\<lparr>state := after_line c\<rparr>)
          else if c = Some delimiter then
            Inr ((parse_save_field self)\<lparr>state := START_FIELD\<rparr>)
          else parse_add_char self (the c)
      | IN_QUOTED_FIELD \<Rightarrow>
          if c = None then Inr self
          else if c = Some quotechar then Inr (self\<lparr>state := QUOTE_IN_QUOTED_FIELD\<rparr>)
          else parse_add_char self (the c)
      | QUOTE_IN_QUOTED_FIELD \<Rightarrow>
          if c = Some quotechar then
            (case parse_add_char self (the c) of Inl e \<Rightarrow> Inl e
             | Inr self' \<Rightarrow> Inr (self'\<lparr>state := IN_QUOTED_FIELD\<rparr>))
          else if c = Some delimiter then
            Inr ((parse_save_field self)\<lparr>state := START_FIELD\<rparr>)
          else if is_newline c \<or> c = None then
            Inr ((parse_save_field self)\<lparr>state := after_line c\<rparr>)
          else
            (case parse_add_char self (the c) of Inl e \<Rightarrow> Inl e
             | Inr self' \<Rightarrow> Inr (self'\<lparr>state := IN_FIELD\<rparr>))
      | EAT_CRNL \<Rightarrow>
          if is_newline c then Inr self
          else if c = None then Inr (self\<lparr>state := START_RECORD\<rparr>)
          else Inl csv_Error)"

text \<open>The characters of one line, in order; the first error ends the line.\<close>

fun parse_line :: "ReaderObj \<Rightarrow> str \<Rightarrow> error + ReaderObj" where
  "parse_line self [] = Inr self"
| "parse_line self (c # cs) =
     (case parse_process_char self (Some c) of Inl e \<Rightarrow> Inl e
      | Inr self' \<Rightarrow> parse_line self' cs)"

text \<open>The reader keeps, between two calls of \<open>next\<close>, only its input iterator: here the
  lines not yet read. \<open>read_record self input_iter\<close> is the loop of \<open>Reader_iternext\<close>: it
  reads lines until the parser is back in \<open>START_RECORD\<close>. At the end of the input it
  returns the record under construction if there is one (an open field or an open quote),
  and raises \<open>StopIteration\<close> otherwise.\<close>

fun read_record :: "ReaderObj \<Rightarrow> str list \<Rightarrow> error + (str list \<times> str list)" where
  "read_record self [] =
     (if field self \<noteq> [] \<or> state self = IN_QUOTED_FIELD
      then Inr (fields' (parse_save_field self), [])
      else Inl StopIteration)"
| "read_record self (line # input_iter) =
     (case parse_line self line of Inl e \<Rightarrow> Inl e
      | Inr self1 \<Rightarrow>
          (case parse_process_char self1 None of Inl e \<Rightarrow> Inl e
           | Inr self2 \<Rightarrow>
               if state self2 \<noteq> START_RECORD then read_record self2 input_iter
               else Inr (fields' self2, input_iter)))"

definition Reader_iternext :: "str list \<Rightarrow> error + (str list \<times> str list)" where
  "Reader_iternext input_iter = read_record parse_reset input_iter"

lemma parse_reset_simps:
  "field parse_reset = []" "state parse_reset = START_RECORD" "fields' parse_reset = []"
  by (simp_all add: parse_reset_def)

lemma read_record_consumes:
  "read_record self input_iter = Inr (row, rest) \<Longrightarrow>
     length rest \<le> length input_iter \<and> (input_iter \<noteq> [] \<longrightarrow> length rest < length input_iter)"
proof (induction input_iter arbitrary: self)
  case Nil
  then show ?case by (simp split: if_splits)
next
  case (Cons line input_iter)
  then show ?case by (fastforce split: sum.splits if_splits)
qed

lemma Reader_iternext_consumes:
  assumes "Reader_iternext input_iter = Inr (row, rest)"
  shows "length rest < length input_iter"
proof (cases input_iter)
  case Nil
  with assms show ?thesis by (simp add: Reader_iternext_def parse_reset_simps)
next
  case (Cons line ls)
  with assms show ?thesis using read_record_consumes [of parse_reset input_iter row rest]
    by (simp add: Reader_iternext_def)
qed

subsection \<open>The loop body\<close>

text \<open>\<open>city, _, lat, long, _, _, _, _, _ = row\<close> takes a row of exactly nine fields.\<close>

definition unpack_row :: "str list \<Rightarrow> error + (str \<times> str \<times> str)" where
  "unpack_row row =
     (if length row < 9 then Inl (ValueError_unpack not_enough_values)
      else if 9 < length row then Inl (ValueError_unpack too_many_values)
      else Inr (row ! 0, row ! 2, row ! 3))"

definition to_float :: "(str \<Rightarrow> 'f option) \<Rightarrow> str \<Rightarrow> error + 'f" where
  "to_float float s = (case float s of None \<Rightarrow> Inl (ValueError_float s) | Some x \<Rightarrow> Inr x)"

definition city_of_row :: "(str \<Rightarrow> 'f option) \<Rightarrow> str list \<Rightarrow> error + 'f CityRecord" where
  "city_of_row float row =
     (case unpack_row row of Inl e \<Rightarrow> Inl e
      | Inr (c, la, lo) \<Rightarrow>
          (case to_float float la of Inl e \<Rightarrow> Inl e
           | Inr x \<Rightarrow>
               (case to_float float lo of Inl e \<Rightarrow> Inl e
                | Inr y \<Rightarrow> Inr \<lparr>city = c, lat = x, long = y\<rparr>)))"

subsection \<open>The loop over the reader\<close>

text \<open>\<open>for row in reader\<close> calls \<open>next\<close> before each iteration: \<open>StopIteration\<close> ends the
  loop, any other exception of the reader and any exception of the body ends the run.\<close>

function for_row_in_reader ::
  "(str \<Rightarrow> 'f option) \<Rightarrow> str list \<Rightarrow> 'f CityRecord list \<Rightarrow> error + 'f CityRecord list" where
  "for_row_in_reader float reader cities =
     (case Reader_iternext reader of
        Inl e \<Rightarrow> if e = StopIteration then Inr cities else Inl e
      | Inr (row, reader') \<Rightarrow>
          (case city_of_row float row of Inl e \<Rightarrow> Inl e
           | Inr c \<Rightarrow> for_row_in_reader float reader' (cities @ [c])))"
  by pat_completeness auto
termination
  by (relation "measure (\<lambda>(float, reader, cities). length reader)")
     (auto dest: Reader_iternext_consumes)

subsection \<open>The script\<close>

text \<open>Lines 11 and 12: the argument is what \<open>requests.get\<close> answered, an exception of its
  own or a response.\<close>

definition fetch :: "error + Response \<Rightarrow> error + bytes" where
  "fetch got =
     (case got of Inl e \<Rightarrow> Inl e
      | Inr res \<Rightarrow>
          (case raise_for_status res of Inl e \<Rightarrow> Inl e | Inr _ \<Rightarrow> Inr (content res)))"

text \<open>Lines 14 to 26: the value of \<open>cities\<close> when the loop is over.\<close>

definition parse_cities :: "(str \<Rightarrow> 'f option) \<Rightarrow> bytes \<Rightarrow> error + 'f CityRecord list" where
  "parse_cities float body =
     (case decode_utf_8 body of Inl e \<Rightarrow> Inl e
      | Inr decoded \<Rightarrow>
          (case Reader_iternext (splitlines decoded) of Inl e \<Rightarrow> Inl e
           | Inr (header, reader) \<Rightarrow> for_row_in_reader float reader []))"

text \<open>Lines 28 and 29. The output file is \<open>None\<close> when it does not exist and \<open>Some\<close> of its
  bytes when it does. Opening with mode \<open>'wb'\<close> creates or truncates it, or raises
  \<open>OSError\<close> and leaves it as it was (\<open>writable\<close> tells which); the dump then writes the whole
  document.\<close>

definition write_plist ::
  "('f CityRecord list \<Rightarrow> bytes) \<Rightarrow> bool \<Rightarrow> 'f CityRecord list \<Rightarrow> bytes option
     \<Rightarrow> error option \<times> bytes option" where
  "write_plist dump writable cities out_file =
     (if writable then (None, Some (dump cities)) else (Some OSError, out_file))"

text \<open>The whole run: the exception that ended it, if any, and the output file after it.\<close>

definition update_cities ::
  "(str \<Rightarrow> 'f option) \<Rightarrow> ('f CityRecord list \<Rightarrow> bytes) \<Rightarrow> bool \<Rightarrow> error + Response
     \<Rightarrow> bytes option \<Rightarrow> error option \<times> bytes option" where
  "update_cities float dump writable got out_file =
     (case fetch got of Inl e \<Rightarrow> (Some e, out_file)
      | Inr body \<Rightarrow>
          (case parse_cities float body of Inl e \<Rightarrow> (Some e, out_file)
           | Inr cities \<Rightarrow> write_plist dump writable cities out_file))"

subsection \<open>What the reader yields\<close>

text \<open>The rows a reader yields until it stops, and the exception that stopped it when it
  is not \<open>StopIteration\<close>: Python's \<open>list(reader)\<close> with the error kept. The claims speak of
  the data rows of a body; these are the rows meant.\<close>

function rows_of_reader :: "str list \<Rightarrow> str list list \<times> error option" where
  "rows_of_reader reader =
     (case Reader_iternext reader of
        Inl e \<Rightarrow> ([], if e = StopIteration then None else Some e)
      | Inr (row, reader') \<Rightarrow>
          (case rows_of_reader reader' of (rows, e) \<Rightarrow> (row # rows, e)))"
  by pat_completeness auto
termination
  by (relation "measure length") (auto dest: Reader_iternext_consumes)

text \<open>A row the loop body accepts: nine fields, the third and fourth accepted by \<open>float\<close>.\<close>

definition well_formed_row :: "(str \<Rightarrow> 'f option) \<Rightarrow> str list \<Rightarrow> bool" where
  "well_formed_row float row =
     (length row = 9 \<and> float (row ! 2) \<noteq> None \<and> float (row ! 3) \<noteq> None)"

subsection \<open>Literals for the examples\<close>

text \<open>An ASCII literal as Python \<open>bytes\<close> (\<open>b'...'\<close>) and as \<open>str\<close>.\<close>

definition ascii_bytes :: "string \<Rightarrow> bytes" where
  "ascii_bytes s = map of_char s"

definition ascii_str :: "string \<Rightarrow> str" where
  "ascii_str s = map of_char s"

text \<open>The examples need one instance of the \<open>float\<close> parameter. \<open>decimal_float\<close> accepts the
  plain decimal literals (an optional sign, digits, and optionally a point and more digits:
  a part of what Python's \<open>float\<close> accepts), and returns the exact decimal value, not rounded
  to a double. It rejects every other string; the examples use it only on strings that
  Python's \<open>float\<close> rejects as well.\<close>

definition is_digit :: "nat \<Rightarrow> bool" where
  "is_digit c = (0x30 \<le> c \<and> c \<le> 0x39)"

fun digits_value :: "nat \<Rightarrow> str \<Rightarrow> nat" where
  "digits_value acc [] = acc"
| "digits_value acc (c # cs) = digits_value (10 * acc + (c - 0x30)) cs"

definition unsigned_decimal :: "str \<Rightarrow> rat option" where
  "unsigned_decimal s =
     (let ip = takeWhile is_digit s; rest = dropWhile is_digit s in
      if ip = [] then None
      else if rest = [] then Some (of_nat (digits_value 0 ip))
      else if hd rest = 0x2E \<and> tl rest \<noteq> [] \<and> list_all is_digit (tl rest) then
        Some (of_nat (digits_value 0 (ip @ tl rest)) / 10 ^ length (tl rest))
      else None)"

definition decimal_float :: "str \<Rightarrow> rat option" where
  "decimal_float s =
     (if s \<noteq> [] \<and> hd s = 0x2D then map_option uminus (unsigned_decimal (tl s))
      else if s \<noteq> [] \<and> hd s = 0x2B then unsigned_decimal (tl s)
      else unsigned_decimal s)"

text \<open>The response bodies of the examples.\<close>

definition two_cities :: bytes where
  "two_cities = ascii_bytes
     ''city,city_ascii,lat,lng,pop,country,iso2,iso3,province\<newline>Tokyo,Tokyo,35.6897,139.6922,1,Japan,JP,JPN,Tokyo\<newline>Paris,Paris,48.8566,2.3522,2,France,FR,FRA,Paris''"

definition tokyo :: bytes where
  "tokyo = ascii_bytes
     ''city,country,lat,lng\<newline>Tokyo,Japan,35.6897,139.6922,...,...,...,...,...''"

definition ten_columns :: bytes where
  "ten_columns = ascii_bytes ''header\<newline>Tokyo,Japan,35.6897,139.6922,a,b,c,d,e,f''"

definition not_numeric :: bytes where
  "not_numeric = ascii_bytes ''header\<newline>Tokyo,Japan,north,139.6922,a,b,c,d,e''"

definition numeric_header :: bytes where
  "numeric_header = ascii_bytes
     ''Null,Island,0.0,0.0,a,b,c,d,e\<newline>Tokyo,Japan,35.6897,139.6922,a,b,c,d,e''"

definition extra_column :: bytes where
  "extra_column = ascii_bytes
     ''header\<newline>Tokyo,Japan,35.6897,139.6922,a,b,c,d,e\<newline>Paris,France,48.8566,2.3522,a,b,c,d,e,f,g''"

subsection \<open>The rows of a body\<close>

text \<open>What the reader yields for a response body: the decoding error, or the rows and the
  exception that stopped the reader. The first row is the header, the others are the data
  rows.\<close>

definition read_body :: "bytes \<Rightarrow> error + (str list list \<times> error option)" where
  "read_body body =
     (case decode_utf_8 body of Inl e \<Rightarrow> Inl e
      | Inr decoded \<Rightarrow> Inr (rows_of_reader (splitlines decoded)))"

text \<open>The loop over rows already read, for the proofs: it raises what the body raises
  at the first row it rejects, and what stopped the reader after the last row.\<close>

fun cities_of_rows ::
  "(str \<Rightarrow> 'f option) \<Rightarrow> str list list \<Rightarrow> error option \<Rightarrow> 'f CityRecord list
     \<Rightarrow> error + 'f CityRecord list" where
  "cities_of_rows float [] stopped cities =
     (case stopped of None \<Rightarrow> Inr cities | Some e \<Rightarrow> Inl e)"
| "cities_of_rows float (row # rows) stopped cities =
     (case city_of_row float row of Inl e \<Rightarrow> Inl e
      | Inr c \<Rightarrow> cities_of_rows float rows stopped (cities @ [c]))"

section \<open>Properties\<close>

subsection \<open>The reader and the loop\<close>

declare for_row_in_reader.simps [simp del] rows_of_reader.simps [simp del]

lemma parse_add_char_error: "parse_add_char self c = Inl e \<Longrightarrow> e = csv_Error"
  by (simp add: parse_add_char_def split: if_splits)

lemma parse_process_char_error: "parse_process_char self c = Inl e \<Longrightarrow> e = csv_Error"
  by (auto simp: parse_process_char_def start_field_def split: ParserState.splits if_splits sum.splits
      dest: parse_add_char_error)

lemma parse_line_error: "parse_line self line = Inl e \<Longrightarrow> e = csv_Error"
  by (induction line arbitrary: self) (auto split: sum.splits dest: parse_process_char_error)

lemma read_record_error:
  "read_record self input_iter = Inl e \<Longrightarrow> e = StopIteration \<or> e = csv_Error"
  by (induction input_iter arbitrary: self)
     (auto split: sum.splits if_splits dest: parse_process_char_error parse_line_error)

lemma Reader_iternext_error:
  "Reader_iternext reader = Inl e \<Longrightarrow> e = StopIteration \<or> e = csv_Error"
  by (auto simp: Reader_iternext_def dest: read_record_error)

lemma Reader_iternext_Nil: "Reader_iternext [] = Inl StopIteration"
  by (simp add: Reader_iternext_def parse_reset_def)

lemma rows_of_reader_stopped: "rows_of_reader reader = (rows, Some e) \<Longrightarrow> e = csv_Error"
proof (induction reader arbitrary: rows rule: rows_of_reader.induct)
  case (1 reader)
  show ?case
  proof (cases "Reader_iternext reader")
    case (Inl e')
    with "1.prems" show ?thesis
      by (auto simp: rows_of_reader.simps [of reader] split: if_splits dest: Reader_iternext_error)
  next
    case (Inr p)
    obtain row reader' where p: "p = (row, reader')" by (cases p)
    obtain rows' st where r: "rows_of_reader reader' = (rows', st)" by (cases "rows_of_reader reader'")
    from "1.prems" Inr p r have "st = Some e"
      by (simp add: rows_of_reader.simps [of reader])
    with "1.IH" [OF Inr p [symmetric]] r show ?thesis by simp
  qed
qed

lemma for_row_in_reader_rows:
  "rows_of_reader reader = (rows, stopped) \<Longrightarrow>
     for_row_in_reader float reader cities = cities_of_rows float rows stopped cities"
proof (induction float reader cities arbitrary: rows rule: for_row_in_reader.induct)
  case (1 float reader cities)
  show ?case
  proof (cases "Reader_iternext reader")
    case (Inl e)
    with "1.prems" show ?thesis
      by (auto simp: rows_of_reader.simps [of reader] for_row_in_reader.simps [of float reader]
          split: if_splits)
  next
    case (Inr p)
    obtain row reader' where p: "p = (row, reader')" by (cases p)
    obtain rows' st where r: "rows_of_reader reader' = (rows', st)" by (cases "rows_of_reader reader'")
    from "1.prems" Inr p r have rows: "rows = row # rows'" and st: "st = stopped"
      by (simp_all add: rows_of_reader.simps [of reader])
    show ?thesis
    proof (cases "city_of_row float row")
      case (Inl e)
      with Inr p rows show ?thesis
        by (simp add: for_row_in_reader.simps [of float reader])
    next
      case c: (Inr c)
      from "1.IH" [OF Inr p [symmetric] c] r st
      have "for_row_in_reader float reader' (cities @ [c]) = cities_of_rows float rows' stopped (cities @ [c])"
        by simp
      with Inr p rows c show ?thesis
        by (simp add: for_row_in_reader.simps [of float reader])
    qed
  qed
qed

subsection \<open>One row\<close>

lemma city_of_row_Inr_iff:
  "city_of_row float row = Inr c \<longleftrightarrow>
     length row = 9 \<and> city c = row ! 0 \<and> float (row ! 2) = Some (lat c)
       \<and> float (row ! 3) = Some (long c)"
  by (cases c) (auto simp: city_of_row_def unpack_row_def to_float_def split: option.splits)

lemma well_formed_row_iff: "well_formed_row float row \<longleftrightarrow> (\<exists>c. city_of_row float row = Inr c)"
proof
  assume "well_formed_row float row"
  then obtain x y where "length row = 9" "float (row ! 2) = Some x" "float (row ! 3) = Some y"
    by (auto simp: well_formed_row_def)
  then have "city_of_row float row = Inr \<lparr>city = row ! 0, lat = x, long = y\<rparr>"
    by (simp add: city_of_row_Inr_iff)
  then show "\<exists>c. city_of_row float row = Inr c" ..
next
  assume "\<exists>c. city_of_row float row = Inr c"
  then show "well_formed_row float row"
    by (auto simp: city_of_row_Inr_iff well_formed_row_def)
qed

lemma city_of_row_error: "city_of_row float row = Inl e \<Longrightarrow> is_ValueError e"
  by (auto simp: city_of_row_def unpack_row_def to_float_def split: option.splits if_splits)

lemma city_of_row_too_many:
  "9 < length row \<Longrightarrow> city_of_row float row = Inl (ValueError_unpack too_many_values)"
  by (simp add: city_of_row_def unpack_row_def)

subsection \<open>The loop over rows already read\<close>

lemma cities_of_rows_Inr_iff:
  "cities_of_rows float rows stopped cities = Inr out \<longleftrightarrow>
     stopped = None \<and>
     (\<exists>cs. out = cities @ cs \<and> list_all2 (\<lambda>row c. city_of_row float row = Inr c) rows cs)"
proof (induction rows arbitrary: cities)
  case Nil
  then show ?case by (auto split: option.splits)
next
  case (Cons row rows)
  show ?case
  proof (cases "city_of_row float row")
    case (Inl e)
    then show ?thesis by (auto simp: list_all2_Cons1)
  next
    case (Inr c)
    then show ?thesis by (auto simp: Cons.IH list_all2_Cons1)
  qed
qed

lemma cities_of_rows_Inl_iff:
  "cities_of_rows float rows stopped cities = Inl e \<longleftrightarrow>
     (\<exists>pre row post. rows = pre @ row # post \<and> (\<forall>r\<in>set pre. well_formed_row float r)
        \<and> city_of_row float row = Inl e)
     \<or> ((\<forall>r\<in>set rows. well_formed_row float r) \<and> stopped = Some e)"
proof (induction rows arbitrary: cities)
  case Nil
  then show ?case by (auto split: option.splits)
next
  case (Cons row rows)
  show ?case
  proof (cases "city_of_row float row")
    case (Inl e')
    then have nwf: "\<not> well_formed_row float row" by (simp add: well_formed_row_iff)
    show ?thesis
    proof
      assume "cities_of_rows float (row # rows) stopped cities = Inl e"
      with Inl have "city_of_row float row = Inl e" by simp
      then have "row # rows = [] @ row # rows \<and> (\<forall>r\<in>set []. well_formed_row float r)
          \<and> city_of_row float row = Inl e" by simp
      then show "(\<exists>pre r post. row # rows = pre @ r # post \<and> (\<forall>r\<in>set pre. well_formed_row float r)
          \<and> city_of_row float r = Inl e)
         \<or> ((\<forall>r\<in>set (row # rows). well_formed_row float r) \<and> stopped = Some e)" by blast
    next
      assume "(\<exists>pre r post. row # rows = pre @ r # post \<and> (\<forall>r\<in>set pre. well_formed_row float r)
          \<and> city_of_row float r = Inl e)
         \<or> ((\<forall>r\<in>set (row # rows). well_formed_row float r) \<and> stopped = Some e)"
      with nwf obtain pre r post where *: "row # rows = pre @ r # post"
        "\<forall>r\<in>set pre. well_formed_row float r" "city_of_row float r = Inl e" by auto
      with nwf have "pre = []" by (cases pre) auto
      with * Inl show "cities_of_rows float (row # rows) stopped cities = Inl e" by simp
    qed
  next
    case (Inr c)
    then have wf: "well_formed_row float row" by (auto simp: well_formed_row_iff)
    have "(\<exists>pre r post. row # rows = pre @ r # post \<and> (\<forall>r\<in>set pre. well_formed_row float r)
          \<and> city_of_row float r = Inl e)
       \<longleftrightarrow> (\<exists>pre r post. rows = pre @ r # post \<and> (\<forall>r\<in>set pre. well_formed_row float r)
          \<and> city_of_row float r = Inl e)" (is "?L \<longleftrightarrow> ?R")
    proof
      assume ?L
      then obtain pre r post where *: "row # rows = pre @ r # post"
        "\<forall>r\<in>set pre. well_formed_row float r" "city_of_row float r = Inl e" by blast
      with Inr obtain pre' where "pre = row # pre'" by (cases pre) auto
      with * have "rows = pre' @ r # post \<and> (\<forall>r\<in>set pre'. well_formed_row float r)
          \<and> city_of_row float r = Inl e" by simp
      then show ?R by blast
    next
      assume ?R
      then obtain pre r post where *: "rows = pre @ r # post"
        "\<forall>r\<in>set pre. well_formed_row float r" "city_of_row float r = Inl e" by blast
      with wf have "row # rows = (row # pre) @ r # post \<and> (\<forall>r\<in>set (row # pre). well_formed_row float r)
          \<and> city_of_row float r = Inl e" by simp
      then show ?L by blast
    qed
    with Inr wf show ?thesis by (simp add: Cons.IH)
  qed
qed

lemma cities_of_rows_malformed:
  assumes "row \<in> set rows" "\<not> well_formed_row float row"
  shows "\<exists>e. cities_of_rows float rows stopped cities = Inl e \<and> is_ValueError e"
  using assms
proof (induction rows arbitrary: cities)
  case Nil
  then show ?case by simp
next
  case (Cons r rows)
  show ?case
  proof (cases "city_of_row float r")
    case (Inl e)
    then show ?thesis by (auto dest: city_of_row_error)
  next
    case (Inr c)
    with Cons.prems have "row \<in> set rows" by (auto simp: well_formed_row_iff)
    with Cons.IH Cons.prems(2) Inr show ?thesis by simp
  qed
qed

lemma cities_of_rows_ValueError:
  assumes "cities_of_rows float rows stopped cities = Inl e" "is_ValueError e"
    "stopped = None \<or> stopped = Some csv_Error"
  shows "\<exists>row\<in>set rows. \<not> well_formed_row float row"
  using assms
proof (induction rows arbitrary: cities)
  case Nil
  then show ?case by (auto split: option.splits)
next
  case (Cons r rows)
  then show ?case by (cases "city_of_row float r") (auto simp: well_formed_row_iff)
qed

subsection \<open>The parser in terms of the rows of the body\<close>

lemma rows_of_reader_Nil:
  "rows_of_reader reader = ([], stopped) \<longleftrightarrow>
     (\<exists>e. Reader_iternext reader = Inl e \<and> stopped = (if e = StopIteration then None else Some e))"
  by (cases "Reader_iternext reader")
     (auto simp: rows_of_reader.simps [of reader] split: prod.splits)

lemma rows_of_reader_Cons:
  "rows_of_reader reader = (header # rows, stopped) \<longleftrightarrow>
     (\<exists>reader'. Reader_iternext reader = Inr (header, reader')
        \<and> rows_of_reader reader' = (rows, stopped))"
  by (cases "Reader_iternext reader")
     (auto simp: rows_of_reader.simps [of reader] split: prod.splits)

lemma parse_cities_rows:
  assumes "read_body body = Inr (header # rows, stopped)"
  shows "parse_cities float body = cities_of_rows float rows stopped []"
proof -
  from assms obtain decoded where d: "decode_utf_8 body = Inr decoded"
    and r: "rows_of_reader (splitlines decoded) = (header # rows, stopped)"
    by (auto simp: read_body_def split: sum.splits)
  from r obtain reader' where n: "Reader_iternext (splitlines decoded) = Inr (header, reader')"
    and r': "rows_of_reader reader' = (rows, stopped)"
    by (auto simp: rows_of_reader_Cons)
  from d n for_row_in_reader_rows [OF r'] show ?thesis
    by (simp add: parse_cities_def)
qed

lemma parse_cities_no_rows:
  assumes "read_body body = Inr ([], stopped)"
  shows "parse_cities float body = Inl (case stopped of None \<Rightarrow> StopIteration | Some e \<Rightarrow> e)"
proof -
  from assms obtain decoded where d: "decode_utf_8 body = Inr decoded"
    and r: "rows_of_reader (splitlines decoded) = ([], stopped)"
    by (auto simp: read_body_def split: sum.splits)
  from r obtain e where "Reader_iternext (splitlines decoded) = Inl e"
    "stopped = (if e = StopIteration then None else Some e)"
    by (auto simp: rows_of_reader_Nil)
  with d show ?thesis by (simp add: parse_cities_def)
qed

lemma decode_utf_8_error: "decode_utf_8 bs = Inl e \<Longrightarrow> e = UnicodeDecodeError"
  by (induction bs arbitrary: e rule: decode_utf_8.induct) (auto split: option.splits sum.splits)

lemma parse_cities_undecodable:
  "read_body body = Inl e \<Longrightarrow> parse_cities float body = Inl UnicodeDecodeError"
  by (auto simp: read_body_def parse_cities_def split: sum.splits dest: decode_utf_8_error)

lemma decode_utf_8_empty: "decode_utf_8 bs = Inr [] \<longleftrightarrow> bs = []"
  by (cases bs) (auto split: option.splits sum.splits)

lemma split_from_empty: "split_from line s = [] \<longleftrightarrow> line = [] \<and> s = []"
  by (induction line s rule: split_from.induct) auto

lemma splitlines_empty: "splitlines s = [] \<longleftrightarrow> s = []"
  by (simp add: splitlines_def split_from_empty)

lemma read_body_stopped:
  "read_body body = Inr (rows, Some e) \<Longrightarrow> e = csv_Error"
  by (auto simp: read_body_def split: sum.splits dest: rows_of_reader_stopped)

subsection \<open>The whole run\<close>

text \<open>The definitions the examples unfold.\<close>

lemmas eval_defs =
  ascii_bytes_def ascii_str_def sequence_length_def continuation_def splitlines_def
  is_linebreak_def Reader_iternext_def parse_reset_def parse_process_char_def start_field_def
  parse_add_char_def parse_save_field_def is_newline_def after_line_def field_limit_def
  delimiter_def quotechar_def rows_of_reader.simps for_row_in_reader.simps read_body_def
  parse_cities_def city_of_row_def unpack_row_def to_float_def decimal_float_def
  unsigned_decimal_def is_digit_def fetch_def raise_for_status_def update_cities_def
  write_plist_def well_formed_row_def

lemma update_cities_written:
  "fetch got = Inr body \<Longrightarrow> parse_cities float body = Inr cities \<Longrightarrow>
     update_cities float dump True got out_file = (None, Some (dump cities))"
  by (simp add: update_cities_def write_plist_def)

lemma update_cities_aborted:
  "fetch got = Inr body \<Longrightarrow> parse_cities float body = Inl e \<Longrightarrow>
     update_cities float dump writable got out_file = (Some e, out_file)"
  by (simp add: update_cities_def)

lemma well_formed_rows_cities:
  assumes "\<forall>row\<in>set rows. well_formed_row float row"
  shows "\<exists>cs. list_all2 (\<lambda>row c. city_of_row float row = Inr c) rows cs"
  using assms
proof (induction rows)
  case Nil
  then show ?case by simp
next
  case (Cons row rows)
  then obtain c cs where "city_of_row float row = Inr c"
    "list_all2 (\<lambda>row c. city_of_row float row = Inr c) rows cs"
    by (auto simp: well_formed_row_iff)
  then have "list_all2 (\<lambda>row c. city_of_row float row = Inr c) (row # rows) (c # cs)" by simp
  then show ?case ..
qed

lemma parse_cities_well_formed:
  assumes "read_body body = Inr (header # rows, None)"
    and "\<forall>row\<in>set rows. well_formed_row float row"
  shows "\<exists>cities. parse_cities float body = Inr cities
           \<and> list_all2 (\<lambda>row c. city_of_row float row = Inr c) rows cities"
proof -
  from well_formed_rows_cities [OF assms(2)] obtain cs
    where cs: "list_all2 (\<lambda>row c. city_of_row float row = Inr c) rows cs" ..
  then have "cities_of_rows float rows None [] = Inr cs"
    by (auto simp: cities_of_rows_Inr_iff)
  with parse_cities_rows [OF assms(1), of float] have "parse_cities float body = Inr cs" by simp
  with cs show ?thesis by blast
qed

section \<open>The claims\<close>

text \<open>C1: a body that is a header followed by N well-formed data rows gives exactly N
  records, the i-th made from the i-th data row, and these are what is serialised.\<close>

theorem C1_records_in_row_order:
  assumes "fetch got = Inr body"
    and "read_body body = Inr (header # rows, None)"
    and "\<forall>row\<in>set rows. well_formed_row float row"
  shows "\<exists>cities. parse_cities float body = Inr cities
           \<and> length cities = length rows
           \<and> (\<forall>i<length rows. city_of_row float (rows ! i) = Inr (cities ! i))
           \<and> update_cities float dump True got out_file = (None, Some (dump cities))"
proof -
  from parse_cities_well_formed [OF assms(2,3)] obtain cities
    where p: "parse_cities float body = Inr cities"
      and l: "list_all2 (\<lambda>row c. city_of_row float row = Inr c) rows cities" by blast
  from l have "length cities = length rows"
    "\<forall>i<length rows. city_of_row float (rows ! i) = Inr (cities ! i)"
    by (auto simp: list_all2_conv_all_nth)
  with p update_cities_written [OF assms(1) p] show ?thesis by blast
qed

theorem C1_records_in_row_order_witness:
  "\<forall>dump out_file.
     update_cities decimal_float dump True (Inr \<lparr>status_code = 200, content = two_cities\<rparr>) out_file
       = (None, Some (dump [\<lparr>city = ascii_str ''Tokyo'', lat = 35.6897, long = 139.6922\<rparr>,
                            \<lparr>city = ascii_str ''Paris'', lat = 48.8566, long = 2.3522\<rparr>]))"
proof (intro allI)
  fix dump :: "rat CityRecord list \<Rightarrow> bytes" and out_file :: "bytes option"
  let ?header = "map ascii_str [''city'', ''city_ascii'', ''lat'', ''lng'', ''pop'', ''country'',
    ''iso2'', ''iso3'', ''province'']"
  let ?rows = "[map ascii_str [''Tokyo'', ''Tokyo'', ''35.6897'', ''139.6922'', ''1'', ''Japan'',
      ''JP'', ''JPN'', ''Tokyo''],
    map ascii_str [''Paris'', ''Paris'', ''48.8566'', ''2.3522'', ''2'', ''France'', ''FR'', ''FRA'',
      ''Paris'']]"
  have f: "fetch (Inr \<lparr>status_code = 200, content = two_cities\<rparr>) = Inr two_cities"
    by (simp add: fetch_def raise_for_status_def)
  have r: "read_body two_cities = Inr (?header # ?rows, None)"
    by (simp add: two_cities_def eval_defs)
  have w: "\<forall>row\<in>set ?rows. well_formed_row decimal_float row"
    by (simp add: eval_defs del: not_None_eq)
  have p: "parse_cities decimal_float two_cities
      = Inr [\<lparr>city = ascii_str ''Tokyo'', lat = 35.6897, long = 139.6922\<rparr>,
             \<lparr>city = ascii_str ''Paris'', lat = 48.8566, long = 2.3522\<rparr>]"
    by (simp add: two_cities_def eval_defs)
  from C1_records_in_row_order [OF f r w, of dump out_file] p
  show "update_cities decimal_float dump True (Inr \<lparr>status_code = 200, content = two_cities\<rparr>) out_file
       = (None, Some (dump [\<lparr>city = ascii_str ''Tokyo'', lat = 35.6897, long = 139.6922\<rparr>,
                            \<lparr>city = ascii_str ''Paris'', lat = 48.8566, long = 2.3522\<rparr>]))"
    by auto
qed

text \<open>C2: in the output of such a run, the record of each data row has the row's column 0 as
  its city, and as its lat and long what \<open>float\<close> returns for columns 2 and 3.\<close>

theorem C2_record_fields:
  assumes "fetch got = Inr body"
    and "read_body body = Inr (header # rows, None)"
    and "\<forall>row\<in>set rows. well_formed_row float row"
  shows "\<exists>cities. update_cities float dump True got out_file = (None, Some (dump cities))
           \<and> length cities = length rows
           \<and> (\<forall>i<length rows.
                 city (cities ! i) = rows ! i ! 0
                 \<and> float (rows ! i ! 2) = Some (lat (cities ! i))
                 \<and> float (rows ! i ! 3) = Some (long (cities ! i)))"
proof -
  from parse_cities_well_formed [OF assms(2,3)] obtain cities
    where p: "parse_cities float body = Inr cities"
      and l: "list_all2 (\<lambda>row c. city_of_row float row = Inr c) rows cities" by blast
  from l have "length cities = length rows"
    "\<forall>i<length rows.
       city (cities ! i) = rows ! i ! 0
       \<and> float (rows ! i ! 2) = Some (lat (cities ! i))
       \<and> float (rows ! i ! 3) = Some (long (cities ! i))"
    by (auto simp: list_all2_conv_all_nth city_of_row_Inr_iff)
  with update_cities_written [OF assms(1) p] show ?thesis by blast
qed

theorem C2_record_fields_witness:
  "\<forall>dump out_file.
     update_cities decimal_float dump True (Inr \<lparr>status_code = 200, content = tokyo\<rparr>) out_file
       = (None, Some (dump [\<lparr>city = ascii_str ''Tokyo'', lat = 35.6897, long = 139.6922\<rparr>]))"
proof (intro allI)
  fix dump :: "rat CityRecord list \<Rightarrow> bytes" and out_file :: "bytes option"
  let ?header = "map ascii_str [''city'', ''country'', ''lat'', ''lng'']"
  let ?row = "map ascii_str [''Tokyo'', ''Japan'', ''35.6897'', ''139.6922'', ''...'', ''...'',
    ''...'', ''...'', ''...'']"
  have f: "fetch (Inr \<lparr>status_code = 200, content = tokyo\<rparr>) = Inr tokyo"
    by (simp add: fetch_def raise_for_status_def)
  have r: "read_body tokyo = Inr (?header # [?row], None)"
    by (simp add: tokyo_def eval_defs)
  have w: "\<forall>row\<in>set [?row]. well_formed_row decimal_float row"
    by (simp add: eval_defs del: not_None_eq)
  from C2_record_fields [OF f r w, of dump out_file] obtain cities
    where u: "update_cities decimal_float dump True (Inr \<lparr>status_code = 200, content = tokyo\<rparr>)
        out_file = (None, Some (dump cities))"
      and n: "length cities = 1"
      and c: "city (cities ! 0) = ?row ! 0"
        "decimal_float (?row ! 2) = Some (lat (cities ! 0))"
        "decimal_float (?row ! 3) = Some (long (cities ! 0))"
    by auto
  from c have "cities ! 0 = \<lparr>city = ascii_str ''Tokyo'', lat = 35.6897, long = 139.6922\<rparr>"
    by (cases "cities ! 0") (simp add: eval_defs)
  with n have "cities = [\<lparr>city = ascii_str ''Tokyo'', lat = 35.6897, long = 139.6922\<rparr>]"
    by (cases cities) auto
  with u show "update_cities decimal_float dump True (Inr \<lparr>status_code = 200, content = tokyo\<rparr>)
      out_file = (None, Some (dump [\<lparr>city = ascii_str ''Tokyo'', lat = 35.6897, long = 139.6922\<rparr>]))"
    by simp
qed

text \<open>C3, as the code has it: the parser ends with a \<open>ValueError\<close> exactly when some data row
  does not have 9 fields (fewer or more) or has a column 2 or 3 that \<open>float\<close> rejects; the
  exception ends the run and leaves the output file as it was. (The claim says "fewer than
  9"; a row of 10 fields is rejected as well.)\<close>

theorem C3_malformed_row_iff:
  assumes "read_body body = Inr (header # rows, stopped)"
  shows "((\<exists>e. parse_cities float body = Inl e \<and> is_ValueError e)
            \<longleftrightarrow> (\<exists>row\<in>set rows. length row \<noteq> 9 \<or> float (row ! 2) = None
                                    \<or> float (row ! 3) = None))
         \<and> (\<forall>e. fetch got = Inr body \<and> parse_cities float body = Inl e
                \<longrightarrow> update_cities float dump writable got out_file = (Some e, out_file))"
proof -
  have p: "parse_cities float body = cities_of_rows float rows stopped []"
    by (rule parse_cities_rows [OF assms])
  have s: "stopped = None \<or> stopped = Some csv_Error"
    using assms by (cases stopped) (auto dest: read_body_stopped)
  have m: "(\<exists>row\<in>set rows. length row \<noteq> 9 \<or> float (row ! 2) = None \<or> float (row ! 3) = None)
      \<longleftrightarrow> (\<exists>row\<in>set rows. \<not> well_formed_row float row)"
    by (auto simp: well_formed_row_def)
  have "(\<exists>e. parse_cities float body = Inl e \<and> is_ValueError e)
      \<longleftrightarrow> (\<exists>row\<in>set rows. \<not> well_formed_row float row)"
  proof
    assume "\<exists>e. parse_cities float body = Inl e \<and> is_ValueError e"
    then obtain e where "cities_of_rows float rows stopped [] = Inl e" "is_ValueError e"
      using p by auto
    then show "\<exists>row\<in>set rows. \<not> well_formed_row float row"
      using s by (rule cities_of_rows_ValueError)
  next
    assume "\<exists>row\<in>set rows. \<not> well_formed_row float row"
    then obtain row where "row \<in> set rows" "\<not> well_formed_row float row" by blast
    from cities_of_rows_malformed [OF this, of stopped "[]"] p
    show "\<exists>e. parse_cities float body = Inl e \<and> is_ValueError e" by simp
  qed
  with m show ?thesis by (auto simp: update_cities_aborted)
qed

theorem C3_malformed_row_iff_witness:
  "\<forall>dump writable out_file.
     update_cities decimal_float dump writable (Inr \<lparr>status_code = 200, content = ten_columns\<rparr>)
       out_file = (Some (ValueError_unpack too_many_values), out_file)"
proof (intro allI)
  fix dump :: "rat CityRecord list \<Rightarrow> bytes" and writable :: bool and out_file :: "bytes option"
  let ?row = "map ascii_str [''Tokyo'', ''Japan'', ''35.6897'', ''139.6922'', ''a'', ''b'', ''c'',
    ''d'', ''e'', ''f'']"
  have f: "fetch (Inr \<lparr>status_code = 200, content = ten_columns\<rparr>) = Inr ten_columns"
    by (simp add: fetch_def raise_for_status_def)
  have r: "read_body ten_columns = Inr ([ascii_str ''header''] # [?row], None)"
    by (simp add: ten_columns_def eval_defs)
  have p: "parse_cities decimal_float ten_columns = Inl (ValueError_unpack too_many_values)"
    by (simp add: ten_columns_def eval_defs)
  from C3_malformed_row_iff [OF r, of decimal_float "Inr \<lparr>status_code = 200, content = ten_columns\<rparr>"
      dump writable out_file] f p
  show "update_cities decimal_float dump writable (Inr \<lparr>status_code = 200, content = ten_columns\<rparr>)
       out_file = (Some (ValueError_unpack too_many_values), out_file)"
    by blast
qed

text \<open>The claim as it is written fails on a row of 10 fields with numeric columns 2 and 3:
  the run ends with a \<open>ValueError\<close>, and no data row has fewer than 9 fields or a field that
  \<open>float\<close> rejects.\<close>

theorem C3_counterexample:
  "read_body ten_columns
     = Inr ([[ascii_str ''header''],
             map ascii_str [''Tokyo'', ''Japan'', ''35.6897'', ''139.6922'', ''a'', ''b'', ''c'',
               ''d'', ''e'', ''f'']], None)
   \<and> parse_cities decimal_float ten_columns = Inl (ValueError_unpack too_many_values)
   \<and> is_ValueError (ValueError_unpack too_many_values)
   \<and> \<not> (\<exists>row\<in>set [map ascii_str [''Tokyo'', ''Japan'', ''35.6897'', ''139.6922'', ''a'', ''b'',
               ''c'', ''d'', ''e'', ''f'']].
            length row < 9 \<or> decimal_float (row ! 2) = None \<or> decimal_float (row ! 3) = None)"
  by (simp add: ten_columns_def eval_defs)

text \<open>C4, as the code has it: \<open>raise_for_status\<close> raises for the statuses 400 to 599 only.
  For these the run ends with \<open>HTTPError\<close> at once and the output file is left as it was;
  a response with any other status passes the check and its body goes to the parser.\<close>

theorem C4_http_error:
  "(400 \<le> status_code res \<and> status_code res < 600
      \<longrightarrow> update_cities float dump writable (Inr res) out_file = (Some HTTPError, out_file))
   \<and> (\<not> (400 \<le> status_code res \<and> status_code res < 600)
      \<longrightarrow> fetch (Inr res) = Inr (content res))"
  by (auto simp: update_cities_def fetch_def raise_for_status_def)

theorem C4_http_error_witness:
  "\<forall>dump writable out_file.
     update_cities decimal_float dump writable (Inr \<lparr>status_code = 404, content = tokyo\<rparr>) out_file
       = (Some HTTPError, out_file)
     \<and> update_cities decimal_float dump writable (Inr \<lparr>status_code = 503, content = []\<rparr>) out_file
       = (Some HTTPError, out_file)
     \<and> fetch (Inr \<lparr>status_code = 200, content = tokyo\<rparr>) = Inr tokyo"
  using C4_http_error [of "\<lparr>status_code = 404, content = tokyo\<rparr>" decimal_float]
    C4_http_error [of "\<lparr>status_code = 503, content = []\<rparr>" decimal_float]
    C4_http_error [of "\<lparr>status_code = 200, content = tokyo\<rparr>" decimal_float]
  by simp

text \<open>The claim as it is written fails on a response with status 300 (not a 2xx status) and
  a well-formed body: no exception is raised and the output file is written.\<close>

theorem C4_counterexample:
  "\<forall>dump.
     \<not> (200 \<le> status_code \<lparr>status_code = 300, content = tokyo\<rparr>
          \<and> status_code \<lparr>status_code = 300, content = tokyo\<rparr> < 300)
     \<and> update_cities decimal_float dump True (Inr \<lparr>status_code = 300, content = tokyo\<rparr>) None
       = (None, Some (dump [\<lparr>city = ascii_str ''Tokyo'', lat = 35.6897, long = 139.6922\<rparr>]))"
  by (simp add: tokyo_def eval_defs)

text \<open>C5: a data row whose latitude or longitude field \<open>float\<close> rejects ends the run with an
  exception, and the output file is as it was before the run: not created, not changed.\<close>

theorem C5_not_numeric_no_output:
  assumes "read_body (content res) = Inr (header # rows, stopped)"
    and "row \<in> set rows"
    and "(2 < length row \<and> float (row ! 2) = None) \<or> (3 < length row \<and> float (row ! 3) = None)"
  shows "\<exists>e. update_cities float dump writable (Inr res) out_file = (Some e, out_file)
           \<and> (raise_for_status res = Inr () \<longrightarrow> is_ValueError e)"
proof (cases "raise_for_status res")
  case (Inl e)
  then show ?thesis by (simp add: update_cities_def fetch_def)
next
  case (Inr u)
  then have f: "fetch (Inr res) = Inr (content res)" by (simp add: fetch_def)
  from assms(3) have "\<not> well_formed_row float row" by (auto simp: well_formed_row_def)
  from cities_of_rows_malformed [OF assms(2) this, of stopped "[]"]
    parse_cities_rows [OF assms(1), of float]
  obtain e where "parse_cities float (content res) = Inl e" "is_ValueError e" by auto
  with update_cities_aborted [OF f, of float e dump writable out_file] show ?thesis by simp
qed

theorem C5_not_numeric_no_output_witness:
  "\<forall>dump writable out_file.
     update_cities decimal_float dump writable (Inr \<lparr>status_code = 200, content = not_numeric\<rparr>)
       out_file = (Some (ValueError_float (ascii_str ''north'')), out_file)"
proof (intro allI)
  fix dump :: "rat CityRecord list \<Rightarrow> bytes" and writable :: bool and out_file :: "bytes option"
  let ?res = "\<lparr>status_code = 200, content = not_numeric\<rparr>"
  let ?row = "map ascii_str [''Tokyo'', ''Japan'', ''north'', ''139.6922'', ''a'', ''b'', ''c'',
    ''d'', ''e'']"
  have r: "read_body (content ?res) = Inr ([ascii_str ''header''] # [?row], None)"
    by (simp add: not_numeric_def eval_defs)
  have m: "?row \<in> set [?row]" by simp
  have n: "(2 < length ?row \<and> decimal_float (?row ! 2) = None)
      \<or> (3 < length ?row \<and> decimal_float (?row ! 3) = None)"
    by (simp add: eval_defs)
  have p: "parse_cities decimal_float not_numeric = Inl (ValueError_float (ascii_str ''north''))"
    by (simp add: not_numeric_def eval_defs)
  from C5_not_numeric_no_output [OF r m n, of dump writable out_file] obtain e
    where u: "update_cities decimal_float dump writable (Inr ?res) out_file = (Some e, out_file)"
    by blast
  moreover from p have "update_cities decimal_float dump writable (Inr ?res) out_file
      = (Some (ValueError_float (ascii_str ''north'')), out_file)"
    by (simp add: update_cities_def fetch_def raise_for_status_def)
  ultimately show "update_cities decimal_float dump writable (Inr ?res) out_file
      = (Some (ValueError_float (ascii_str ''north'')), out_file)" by simp
qed

text \<open>C6: the first row the reader yields is taken by \<open>next(reader)\<close> and never reaches the
  loop: a run that produces records produces one per row after the first, the i-th from
  row i + 1, and produces the same records whatever the first row is.\<close>

theorem C6_header_discarded:
  assumes "read_body body = Inr (all_rows, stopped)"
    and "parse_cities float body = Inr cities"
  shows "all_rows \<noteq> [] \<and> length cities = length all_rows - 1
         \<and> (\<forall>i<length cities. city_of_row float (all_rows ! Suc i) = Inr (cities ! i))
         \<and> (\<forall>body' header'. read_body body' = Inr (header' # tl all_rows, stopped)
               \<longrightarrow> parse_cities float body' = Inr cities)"
proof (cases all_rows)
  case Nil
  with assms parse_cities_no_rows [of body stopped float] show ?thesis by simp
next
  case (Cons header rows)
  with assms(1) have r: "read_body body = Inr (header # rows, stopped)" by simp
  from parse_cities_rows [OF r, of float] assms(2)
  have c: "cities_of_rows float rows stopped [] = Inr cities" by simp
  then have "list_all2 (\<lambda>row c. city_of_row float row = Inr c) rows cities"
    by (simp add: cities_of_rows_Inr_iff)
  then have "length cities = length rows"
    "\<forall>i<length cities. city_of_row float (rows ! i) = Inr (cities ! i)"
    by (auto simp: list_all2_conv_all_nth)
  moreover have "parse_cities float body' = Inr cities"
    if "read_body body' = Inr (header' # rows, stopped)" for body' header'
    using parse_cities_rows [OF that, of float] c by simp
  ultimately show ?thesis using Cons by simp
qed

theorem C6_header_discarded_witness:
  "parse_cities decimal_float numeric_header
     = Inr [\<lparr>city = ascii_str ''Tokyo'', lat = 35.6897, long = 139.6922\<rparr>]
   \<and> city_of_row decimal_float (map ascii_str [''Null'', ''Island'', ''0.0'', ''0.0'', ''a'', ''b'',
        ''c'', ''d'', ''e'']) = Inr \<lparr>city = ascii_str ''Null'', lat = 0, long = 0\<rparr>
   \<and> city_of_row decimal_float (map ascii_str [''Tokyo'', ''Japan'', ''35.6897'', ''139.6922'', ''a'',
        ''b'', ''c'', ''d'', ''e''])
       = Inr \<lparr>city = ascii_str ''Tokyo'', lat = 35.6897, long = 139.6922\<rparr>"
proof -
  let ?header = "map ascii_str [''Null'', ''Island'', ''0.0'', ''0.0'', ''a'', ''b'', ''c'', ''d'', ''e'']"
  let ?row = "map ascii_str [''Tokyo'', ''Japan'', ''35.6897'', ''139.6922'', ''a'', ''b'', ''c'',
    ''d'', ''e'']"
  have r: "read_body numeric_header = Inr ([?header, ?row], None)"
    by (simp add: numeric_header_def eval_defs)
  have p: "parse_cities decimal_float numeric_header
      = Inr [\<lparr>city = ascii_str ''Tokyo'', lat = 35.6897, long = 139.6922\<rparr>]"
    by (simp add: numeric_header_def eval_defs)
  have h: "city_of_row decimal_float ?header = Inr \<lparr>city = ascii_str ''Null'', lat = 0, long = 0\<rparr>"
    by (simp add: eval_defs)
  from C6_header_discarded [OF r p]
  have "\<forall>i<length [\<lparr>city = ascii_str ''Tokyo'', lat = 35.6897 :: rat, long = 139.6922\<rparr>].
      city_of_row decimal_float ([?header, ?row] ! Suc i)
        = Inr ([\<lparr>city = ascii_str ''Tokyo'', lat = 35.6897, long = 139.6922\<rparr>] ! i)"
    by blast
  then have "city_of_row decimal_float ?row
      = Inr \<lparr>city = ascii_str ''Tokyo'', lat = 35.6897, long = 139.6922\<rparr>"
    by simp
  with p h show ?thesis by simp
qed

text \<open>C7: a run that ends without an exception leaves in the output file the dump of the
  records it parsed, whatever the file held before, or whether it existed.\<close>

theorem C7_output_overwritten:
  assumes "update_cities float dump writable got out_file = (None, written)"
  shows "\<exists>cities. (\<exists>body. fetch got = Inr body \<and> parse_cities float body = Inr cities)
           \<and> written = Some (dump cities)
           \<and> (\<forall>prior. update_cities float dump writable got prior = (None, Some (dump cities)))"
proof -
  from assms obtain body where f: "fetch got = Inr body"
    by (cases "fetch got") (auto simp: update_cities_def)
  with assms obtain cities where p: "parse_cities float body = Inr cities"
    by (cases "parse_cities float body") (auto simp: update_cities_def)
  from assms f p have w: "writable" "written = Some (dump cities)"
    by (auto simp: update_cities_def write_plist_def split: if_splits)
  with f p have "\<forall>prior. update_cities float dump writable got prior = (None, Some (dump cities))"
    by (simp add: update_cities_def write_plist_def)
  with f p w show ?thesis by blast
qed

theorem C7_output_overwritten_witness:
  "\<forall>dump.
     update_cities decimal_float dump True (Inr \<lparr>status_code = 200, content = tokyo\<rparr>)
       (Some [0x62, 0x70, 0x6C])
     = (None, Some (dump [\<lparr>city = ascii_str ''Tokyo'', lat = 35.6897, long = 139.6922\<rparr>]))
     \<and> update_cities decimal_float dump True (Inr \<lparr>status_code = 200, content = tokyo\<rparr>) None
     = (None, Some (dump [\<lparr>city = ascii_str ''Tokyo'', lat = 35.6897, long = 139.6922\<rparr>]))"
proof (intro allI)
  fix dump :: "rat CityRecord list \<Rightarrow> bytes"
  let ?got = "Inr \<lparr>status_code = 200, content = tokyo\<rparr> :: error + Response"
  let ?out = "Some (dump [\<lparr>city = ascii_str ''Tokyo'', lat = 35.6897, long = 139.6922\<rparr>])"
  have u: "update_cities decimal_float dump True ?got (Some [0x62, 0x70, 0x6C]) = (None, ?out)"
    by (simp add: tokyo_def eval_defs)
  from C7_output_overwritten [OF u] obtain cities where "?out = Some (dump cities)"
    "\<forall>prior. update_cities decimal_float dump True ?got prior = (None, Some (dump cities))"
    by blast
  then have "update_cities decimal_float dump True ?got None = (None, ?out)" by simp
  with u show "update_cities decimal_float dump True ?got (Some [0x62, 0x70, 0x6C]) = (None, ?out)
      \<and> update_cities decimal_float dump True ?got None = (None, ?out)" by simp
qed

text \<open>C9: a data row of more than 9 fields is rejected by the unpacking, so the run ends
  with an exception and the output file is as it was before the run.\<close>

theorem C9_too_many_columns:
  assumes "read_body (content res) = Inr (header # rows, stopped)"
    and "row \<in> set rows"
    and "9 < length row"
  shows "unpack_row row = Inl (ValueError_unpack too_many_values)
         \<and> (\<exists>e. update_cities float dump writable (Inr res) out_file = (Some e, out_file)
                \<and> (raise_for_status res = Inr () \<longrightarrow> is_ValueError e))"
proof -
  have u: "unpack_row row = Inl (ValueError_unpack too_many_values)"
    using assms(3) by (simp add: unpack_row_def)
  have "\<exists>e. update_cities float dump writable (Inr res) out_file = (Some e, out_file)
      \<and> (raise_for_status res = Inr () \<longrightarrow> is_ValueError e)"
  proof (cases "raise_for_status res")
    case (Inl e)
    then show ?thesis by (simp add: update_cities_def fetch_def)
  next
    case (Inr u)
    then have f: "fetch (Inr res) = Inr (content res)" by (simp add: fetch_def)
    from assms(3) have "\<not> well_formed_row float row" by (simp add: well_formed_row_def)
    from cities_of_rows_malformed [OF assms(2) this, of stopped "[]"]
      parse_cities_rows [OF assms(1), of float]
    obtain e where "parse_cities float (content res) = Inl e" "is_ValueError e" by auto
    with update_cities_aborted [OF f, of float e dump writable out_file] show ?thesis by simp
  qed
  with u show ?thesis by simp
qed

theorem C9_too_many_columns_witness:
  "\<forall>dump writable out_file.
     update_cities decimal_float dump writable (Inr \<lparr>status_code = 200, content = extra_column\<rparr>)
       out_file = (Some (ValueError_unpack too_many_values), out_file)"
proof (intro allI)
  fix dump :: "rat CityRecord list \<Rightarrow> bytes" and writable :: bool and out_file :: "bytes option"
  let ?res = "\<lparr>status_code = 200, content = extra_column\<rparr>"
  let ?tokyo = "map ascii_str [''Tokyo'', ''Japan'', ''35.6897'', ''139.6922'', ''a'', ''b'', ''c'',
    ''d'', ''e'']"
  let ?paris = "map ascii_str [''Paris'', ''France'', ''48.8566'', ''2.3522'', ''a'', ''b'', ''c'',
    ''d'', ''e'', ''f'', ''g'']"
  have r: "read_body (content ?res) = Inr ([ascii_str ''header''] # [?tokyo, ?paris], None)"
    by (simp add: extra_column_def eval_defs)
  have m: "?paris \<in> set [?tokyo, ?paris]" by simp
  have n: "9 < length ?paris" by simp
  have p: "parse_cities decimal_float extra_column = Inl (ValueError_unpack too_many_values)"
    by (simp add: extra_column_def eval_defs)
  from C9_too_many_columns [OF r m n, of decimal_float dump writable out_file] obtain e
    where u: "update_cities decimal_float dump writable (Inr ?res) out_file = (Some e, out_file)"
    by blast
  moreover from p have "fst (update_cities decimal_float dump writable (Inr ?res) out_file)
      = Some (ValueError_unpack too_many_values)"
    by (simp add: update_cities_def fetch_def raise_for_status_def)
  ultimately show "update_cities decimal_float dump writable (Inr ?res) out_file
      = (Some (ValueError_unpack too_many_values), out_file)" by simp
qed

text \<open>C10: a body with no line at all is the empty body; \<open>next(reader)\<close> then raises
  \<open>StopIteration\<close>, which ends the run with the output file as it was.\<close>

theorem C10_empty_body:
  assumes "decode_utf_8 (content res) = Inr decoded"
    and "splitlines decoded = []"
  shows "content res = []
         \<and> update_cities float dump writable (Inr res) out_file
             = (Some (if raise_for_status res = Inr () then StopIteration else HTTPError), out_file)"
proof -
  from assms(2) have d: "decoded = []" by (simp add: splitlines_empty)
  with assms(1) have c: "content res = []" by (simp add: decode_utf_8_empty)
  have "parse_cities float [] = Inl StopIteration"
    by (simp add: parse_cities_def splitlines_def Reader_iternext_Nil)
  with c have "update_cities float dump writable (Inr res) out_file
      = (Some (if raise_for_status res = Inr () then StopIteration else HTTPError), out_file)"
    by (auto simp: update_cities_def fetch_def raise_for_status_def)
  with c show ?thesis by simp
qed

theorem C10_empty_body_witness:
  "\<forall>dump writable out_file.
     update_cities decimal_float dump writable (Inr \<lparr>status_code = 200, content = []\<rparr>) out_file
       = (Some StopIteration, out_file)"
proof (intro allI)
  fix dump :: "rat CityRecord list \<Rightarrow> bytes" and writable :: bool and out_file :: "bytes option"
  have d: "decode_utf_8 (content \<lparr>status_code = 200, content = []\<rparr>) = Inr []" by simp
  have s: "splitlines [] = []" by (simp add: splitlines_def)
  from C10_empty_body [OF d s, of decimal_float dump writable out_file]
  show "update_cities decimal_float dump writable (Inr \<lparr>status_code = 200, content = []\<rparr>) out_file
       = (Some StopIteration, out_file)"
    by (simp add: raise_for_status_def)
qed

end
